theory Spec2Isabelle
  imports Main "HOL-Library.Word" "HOL-Library.AList"
begin

section \<open>Values\<close>

text \<open>
  \<^verbatim>\<open>ValueType = std::variant<nullptr_t, bool, int64_t, double, std::string,
  std::shared_ptr<Channel>>\<close> (runtime.hpp). A double is carried as its 64-bit pattern and a
  channel handle as the address of the channel; the channel operations only copy values.
\<close>

datatype Value =
    VNull
  | VBool bool
  | VInt "64 word"
  | VFloat "64 word"
  | VString string
  | VChannel nat

section \<open>Channel\<close>

text \<open>
  \<^verbatim>\<open>class Channel\<close>: \<^verbatim>\<open>std::queue<Value> buffer\<close> (front of the queue is the head of
  the list, \<^verbatim>\<open>push\<close> appends), \<^verbatim>\<open>size_t max_size\<close>, \<^verbatim>\<open>bool closed\<close>. Every method runs
  under the channel's mutex, so a method call is one atomic step on this record.
\<close>

record Channel =
  buffer :: "Value list"
  max_size :: nat
  closed :: bool

text \<open>\<^verbatim>\<open>Channel::Channel(size_t buffer_size) : max_size(buffer_size), closed(false)\<close>\<close>

definition Channel_ctor :: "nat \<Rightarrow> Channel" where
  "Channel_ctor buffer_size = \<lparr>buffer = [], max_size = buffer_size, closed = False\<rparr>"

text \<open>
  A call either returns a result and leaves the channel in a new state, or it parks the
  calling thread on a condition variable (\<open>Blocks\<close>): the channel is unchanged and the call
  has not returned.
\<close>

datatype 'a outcome = Returns 'a Channel | Blocks

text \<open>
  \<^verbatim>\<open>Channel::send\<close>. The wait on \<^verbatim>\<open>not_full\<close> is entered only when \<^verbatim>\<open>max_size > 0\<close> and the
  buffer holds \<^verbatim>\<open>max_size\<close> values; the channel is open there, so the wait predicate
  \<^verbatim>\<open>buffer.size() < max_size || closed\<close> is false and the thread parks.
\<close>

definition send :: "Channel \<Rightarrow> Value \<Rightarrow> bool outcome" where
  "send ch v =
     (if closed ch then Returns False ch
      else if max_size ch > 0 \<and> length (buffer ch) \<ge> max_size ch then Blocks
      else Returns True (ch\<lparr>buffer := buffer ch @ [v]\<rparr>))"

text \<open>
  The rest of \<^verbatim>\<open>send\<close> after \<^verbatim>\<open>not_full.wait\<close> has returned, in the channel state \<open>ch\<close> the
  woken thread finds (the predicate holds there, or the thread stays parked).
\<close>

definition send_wait_pred :: "Channel \<Rightarrow> bool" where
  "send_wait_pred ch \<longleftrightarrow> length (buffer ch) < max_size ch \<or> closed ch"

definition send_resume :: "Channel \<Rightarrow> Value \<Rightarrow> bool outcome" where
  "send_resume ch v =
     (if \<not> send_wait_pred ch then Blocks
      else if closed ch then Returns False ch
      else Returns True (ch\<lparr>buffer := buffer ch @ [v]\<rparr>))"

text \<open>
  \<^verbatim>\<open>Channel::receive\<close>: waits on \<^verbatim>\<open>not_empty\<close> until \<^verbatim>\<open>!buffer.empty() || closed\<close>, then
  returns \<^verbatim>\<open>nullopt\<close> on an empty closed channel and the front value otherwise.
\<close>

definition receive :: "Channel \<Rightarrow> Value option outcome" where
  "receive ch =
     (if \<not> (buffer ch \<noteq> [] \<or> closed ch) then Blocks
      else if buffer ch = [] \<and> closed ch then Returns None ch
      else Returns (Some (hd (buffer ch))) (ch\<lparr>buffer := tl (buffer ch)\<rparr>))"

text \<open>\<^verbatim>\<open>Channel::close\<close>, \<^verbatim>\<open>is_closed\<close>, \<^verbatim>\<open>is_empty\<close>, \<^verbatim>\<open>is_full\<close>, \<^verbatim>\<open>size\<close>, \<^verbatim>\<open>capacity\<close>.\<close>

definition close :: "Channel \<Rightarrow> Channel" where
  "close ch = ch\<lparr>closed := True\<rparr>"

definition is_closed :: "Channel \<Rightarrow> bool" where
  "is_closed ch = closed ch"

definition is_empty :: "Channel \<Rightarrow> bool" where
  "is_empty ch \<longleftrightarrow> buffer ch = []"

definition is_full :: "Channel \<Rightarrow> bool" where
  "is_full ch = (if max_size ch = 0 then False else length (buffer ch) \<ge> max_size ch)"

definition size_channel :: "Channel \<Rightarrow> nat" where
  "size_channel ch = length (buffer ch)"

definition capacity :: "Channel \<Rightarrow> nat" where
  "capacity ch = max_size ch"

text \<open>
  Straight-line callers, as in the repository's runtime test (two sends, then two
  receives, on one thread): a call that blocks never returns, so the sequence has no
  result (\<open>None\<close>).
\<close>

fun send_all :: "Channel \<Rightarrow> Value list \<Rightarrow> (bool list \<times> Channel) option" where
  "send_all ch [] = Some ([], ch)"
| "send_all ch (v # vs) =
     (case send ch v of
        Blocks \<Rightarrow> None
      | Returns r ch' \<Rightarrow>
          (case send_all ch' vs of
             None \<Rightarrow> None
           | Some (rs, ch'') \<Rightarrow> Some (r # rs, ch'')))"

fun receive_n :: "Channel \<Rightarrow> nat \<Rightarrow> (Value option list \<times> Channel) option" where
  "receive_n ch 0 = Some ([], ch)"
| "receive_n ch (Suc n) =
     (case receive ch of
        Blocks \<Rightarrow> None
      | Returns r ch' \<Rightarrow>
          (case receive_n ch' n of
             None \<Rightarrow> None
           | Some (rs, ch'') \<Rightarrow> Some (r # rs, ch'')))"

text \<open>Any later history of a channel: a sequence of method calls by any threads.\<close>

datatype chan_op = Send Value | Receive | Close

fun apply_op :: "Channel \<Rightarrow> chan_op \<Rightarrow> Channel" where
  "apply_op ch (Send v) = (case send ch v of Returns _ ch' \<Rightarrow> ch' | Blocks \<Rightarrow> ch)"
| "apply_op ch Receive = (case receive ch of Returns _ ch' \<Rightarrow> ch' | Blocks \<Rightarrow> ch)"
| "apply_op ch Close = close ch"

definition run_ops :: "Channel \<Rightarrow> chan_op list \<Rightarrow> Channel" where
  "run_ops ch ops = foldl apply_op ch ops"

section \<open>GarbageCollector\<close>

text \<open>
  \<^verbatim>\<open>size_t\<close> on the 64-bit target the Makefile builds for; \<^verbatim>\<open>+=\<close> and \<^verbatim>\<open>-=\<close> wrap
  around. A \<^verbatim>\<open>void*\<close> identity is its address.
\<close>

type_synonym size_t = "64 word"
type_synonym addr = nat

text \<open>\<^verbatim>\<open>struct ObjectInfo { void* ptr; size_t size; bool marked; }\<close>\<close>

record ObjectInfo =
  ptr :: addr
  size_bytes :: size_t
  marked :: bool

text \<open>
  \<^verbatim>\<open>class GarbageCollector\<close>. The \<^verbatim>\<open>unordered_map<void*, ObjectInfo>\<close> is an association
  list with one entry per key, in the order the map's iterator visits them.
  \<open>gc_mutex\<close> is true while \<^verbatim>\<open>std::mutex gc_mutex\<close> is held by the calling thread.
\<close>

record GarbageCollector =
  objects :: "(addr \<times> ObjectInfo) list"
  memory_threshold :: size_t
  total_allocated :: size_t
  gc_mutex :: bool

text \<open>
  How a call of a \<^verbatim>\<open>void\<close> method ends: it returns, it throws (the only way a \<^verbatim>\<open>void\<close>
  method can report an error to its caller; no method of the collector has a \<^verbatim>\<open>throw\<close>),
  or it never returns because the thread locks a \<^verbatim>\<open>std::mutex\<close> it already owns
  (\<^verbatim>\<open>std::mutex\<close> is not recursive; the thread waits for itself for ever).
\<close>

datatype gc_result = Returned GarbageCollector | Raised | Deadlock

text \<open>\<^verbatim>\<open>std::lock_guard<std::mutex> lock(gc_mutex);\<close> around the rest of a method body.\<close>

definition lock_guard :: "GarbageCollector \<Rightarrow> (GarbageCollector \<Rightarrow> gc_result) \<Rightarrow> gc_result" where
  "lock_guard gc body =
     (if gc_mutex gc then Deadlock
      else (case body (gc\<lparr>gc_mutex := True\<rparr>) of
              Returned gc' \<Rightarrow> Returned (gc'\<lparr>gc_mutex := False\<rparr>)
            | Raised \<Rightarrow> Raised
            | Deadlock \<Rightarrow> Deadlock))"

text \<open>\<^verbatim>\<open>GarbageCollector::GarbageCollector() : memory_threshold(1024 * 1024), total_allocated(0)\<close>\<close>

definition GarbageCollector_ctor :: GarbageCollector where
  "GarbageCollector_ctor =
     \<lparr>objects = [], memory_threshold = 1024 * 1024, total_allocated = 0, gc_mutex = False\<rparr>"

text \<open>\<^verbatim>\<open>mark_reachable_objects\<close>: the loop sets \<^verbatim>\<open>info.marked = true\<close> on every entry.\<close>

definition mark_reachable_objects :: "GarbageCollector \<Rightarrow> GarbageCollector" where
  "mark_reachable_objects gc =
     gc\<lparr>objects := map (\<lambda>(p, info). (p, info\<lparr>marked := True\<rparr>)) (objects gc)\<rparr>"

text \<open>
  \<^verbatim>\<open>sweep_unreachable_objects\<close>: the iterator loop, threading \<^verbatim>\<open>total_allocated\<close>; an
  unmarked entry is erased and its size subtracted.
\<close>

fun sweep_loop :: "(addr \<times> ObjectInfo) list \<Rightarrow> size_t \<Rightarrow> (addr \<times> ObjectInfo) list \<times> size_t" where
  "sweep_loop [] tot = ([], tot)"
| "sweep_loop ((p, info) # rest) tot =
     (if \<not> marked info then sweep_loop rest (tot - size_bytes info)
      else (case sweep_loop rest tot of (kept, tot') \<Rightarrow> ((p, info) # kept, tot')))"

definition sweep_unreachable_objects :: "GarbageCollector \<Rightarrow> GarbageCollector" where
  "sweep_unreachable_objects gc =
     (case sweep_loop (objects gc) (total_allocated gc) of
        (kept, tot') \<Rightarrow> gc\<lparr>objects := kept, total_allocated := tot'\<rparr>)"

text \<open>\<^verbatim>\<open>mark_and_sweep\<close>: clear every mark, mark, sweep.\<close>

definition mark_and_sweep :: "GarbageCollector \<Rightarrow> GarbageCollector" where
  "mark_and_sweep gc =
     sweep_unreachable_objects
       (mark_reachable_objects
          (gc\<lparr>objects := map (\<lambda>(p, info). (p, info\<lparr>marked := False\<rparr>)) (objects gc)\<rparr>))"

text \<open>\<^verbatim>\<open>collect\<close>: takes \<^verbatim>\<open>gc_mutex\<close>, then \<^verbatim>\<open>mark_and_sweep()\<close>.\<close>

definition collect :: "GarbageCollector \<Rightarrow> gc_result" where
  "collect gc = lock_guard gc (\<lambda>g. Returned (mark_and_sweep g))"

text \<open>
  \<^verbatim>\<open>register_object\<close>: takes \<^verbatim>\<open>gc_mutex\<close>; \<^verbatim>\<open>objects[ptr] = {ptr, size, false}\<close> replaces the
  entry of a key already present and inserts one otherwise; \<^verbatim>\<open>total_allocated += size\<close>;
  above the threshold it calls \<^verbatim>\<open>collect()\<close>, with the lock still held.
\<close>

definition register_object :: "GarbageCollector \<Rightarrow> addr \<Rightarrow> size_t \<Rightarrow> gc_result" where
  "register_object gc p sz =
     lock_guard gc (\<lambda>g.
       let g1 = g\<lparr>objects := AList.update p \<lparr>ptr = p, size_bytes = sz, marked = False\<rparr> (objects g)\<rparr>;
           g2 = g1\<lparr>total_allocated := total_allocated g1 + sz\<rparr>
       in if total_allocated g2 > memory_threshold g2 then collect g2 else Returned g2)"

text \<open>\<^verbatim>\<open>unregister_object\<close>: nothing happens when \<^verbatim>\<open>find\<close> returns \<^verbatim>\<open>end()\<close>.\<close>

definition unregister_object :: "GarbageCollector \<Rightarrow> addr \<Rightarrow> gc_result" where
  "unregister_object gc p =
     lock_guard gc (\<lambda>g.
       (case map_of (objects g) p of
          Some info \<Rightarrow>
            Returned (g\<lparr>total_allocated := total_allocated g - size_bytes info,
                        objects := AList.delete p (objects g)\<rparr>)
        | None \<Rightarrow> Returned g))"

definition set_threshold :: "GarbageCollector \<Rightarrow> size_t \<Rightarrow> GarbageCollector" where
  "set_threshold gc threshold = gc\<lparr>memory_threshold := threshold\<rparr>"

definition get_threshold :: "GarbageCollector \<Rightarrow> size_t" where
  "get_threshold gc = memory_threshold gc"

definition allocated_objects :: "GarbageCollector \<Rightarrow> nat" where
  "allocated_objects gc = length (objects gc)"

definition total_memory :: "GarbageCollector \<Rightarrow> size_t" where
  "total_memory gc = total_allocated gc"

text \<open>The sum of the sizes of the registered objects, in \<^verbatim>\<open>size_t\<close> arithmetic.\<close>

definition registered_bytes :: "GarbageCollector \<Rightarrow> size_t" where
  "registered_bytes gc = sum_list (map (\<lambda>(p, info). size_bytes info) (objects gc))"

text \<open>Sequencing of calls on one thread: the next call runs only if this one returned.\<close>

definition and_then :: "gc_result \<Rightarrow> (GarbageCollector \<Rightarrow> gc_result) \<Rightarrow> gc_result" where
  "and_then r f = (case r of Returned gc \<Rightarrow> f gc | Raised \<Rightarrow> Raised | Deadlock \<Rightarrow> Deadlock)"

section \<open>Fiber\<close>

text \<open>\<^verbatim>\<open>enum class Fiber::State\<close>\<close>

datatype State = READY | RUNNING | WAITING | FINISHED | ERROR

text \<open>
  The \<^verbatim>\<open>std::function<void()>\<close> a fiber runs, reduced to what it can do to the scheduler
  through its public interface: the \<^verbatim>\<open>spawn\<close> calls it makes, each with the work of the
  new fiber.
\<close>

datatype work = Work "work list"

text \<open>
  \<^verbatim>\<open>class Fiber\<close>: \<^verbatim>\<open>id\<close>, \<^verbatim>\<open>state\<close> and \<^verbatim>\<open>function\<close>. The locals and the unused execution
  context play no part in scheduling.
\<close>

record Fiber =
  id_fiber :: nat
  state :: State
  function_work :: work

section \<open>Scheduler\<close>

text \<open>A \<^verbatim>\<open>std::thread\<close> handle: the thread it stands for, and whether it is joinable.\<close>

record thread =
  tid :: nat
  joinable :: bool

text \<open>
  \<^verbatim>\<open>class Scheduler\<close>: the worker vector and the capacity \<^verbatim>\<open>reserve(num_threads)\<close> gave
  it, the three fiber collections and \<^verbatim>\<open>running\<close>. The collections hold
  \<^verbatim>\<open>shared_ptr<Fiber>\<close>: an entry is the address of a fiber in \<open>fiber_heap\<close>, so a change
  of a fiber's state is seen through every collection that holds it. \<open>next_id\<close> is the
  static \<^verbatim>\<open>Fiber::next_id\<close>; \<open>live_threads\<close> are the worker threads of the process that
  have been created and not yet joined.
\<close>

record Scheduler =
  workers :: "thread list"
  workers_capacity :: nat
  ready_queue :: "nat list"
  running_fibers :: "nat list"
  waiting_fibers :: "nat list"
  running :: bool
  fiber_heap :: "nat \<rightharpoonup> Fiber"
  next_id :: nat
  live_threads :: "nat list"
  next_tid :: nat

text \<open>\<^verbatim>\<open>Scheduler::Scheduler(size_t num_threads) : running(false) { workers.reserve(num_threads); }\<close>\<close>

definition Scheduler_ctor :: "nat \<Rightarrow> Scheduler" where
  "Scheduler_ctor num_threads =
     \<lparr>workers = [], workers_capacity = num_threads, ready_queue = [], running_fibers = [],
      waiting_fibers = [], running = False, fiber_heap = Map.empty, next_id = 1,
      live_threads = [], next_tid = 0\<rparr>"

text \<open>\<^verbatim>\<open>Scheduler::start\<close>: one \<^verbatim>\<open>emplace_back\<close> of a new worker thread per unit of capacity.\<close>

definition start :: "Scheduler \<Rightarrow> Scheduler" where
  "start s =
     (if running s then s
      else
        (let created = map (\<lambda>i. \<lparr>tid = next_tid s + i, joinable = True\<rparr>) [0..<workers_capacity s]
         in s\<lparr>running := True,
              workers := workers s @ created,
              live_threads := live_threads s @ map tid created,
              next_tid := next_tid s + workers_capacity s\<rparr>))"

text \<open>
  The loop of \<^verbatim>\<open>Scheduler::stop\<close>: \<^verbatim>\<open>if (worker.joinable()) worker.join();\<close>. A join
  returns when the thread has ended; the handle is no longer joinable.
\<close>

fun join_workers :: "thread list \<Rightarrow> nat list \<Rightarrow> thread list \<times> nat list" where
  "join_workers [] live = ([], live)"
| "join_workers (w # ws) live =
     (if joinable w
      then (case join_workers ws (removeAll (tid w) live) of
              (ws', live') \<Rightarrow> (w\<lparr>joinable := False\<rparr> # ws', live'))
      else (case join_workers ws live of (ws', live') \<Rightarrow> (w # ws', live')))"

text \<open>\<^verbatim>\<open>Scheduler::stop\<close>\<close>

definition stop :: "Scheduler \<Rightarrow> Scheduler" where
  "stop s =
     (if \<not> running s then s
      else
        (let s1 = s\<lparr>running := False\<rparr>
         in (case join_workers (workers s1) (live_threads s1) of
               (ws, live) \<Rightarrow> s1\<lparr>live_threads := live, workers := []\<rparr>)))"

text \<open>
  \<^verbatim>\<open>Scheduler::spawn\<close>: \<^verbatim>\<open>make_shared<Fiber>(func)\<close> (the constructor takes \<^verbatim>\<open>next_id++\<close>
  and starts in \<^verbatim>\<open>READY\<close>), then \<^verbatim>\<open>ready_queue.push(fiber)\<close>.
\<close>

definition spawn :: "Scheduler \<Rightarrow> work \<Rightarrow> Scheduler" where
  "spawn s func =
     (let a = next_id s;
          fiber = \<lparr>id_fiber = a, state = READY, function_work = func\<rparr>
      in s\<lparr>next_id := a + 1,
           fiber_heap := (fiber_heap s)(a \<mapsto> fiber),
           ready_queue := ready_queue s @ [a]\<rparr>)"

text \<open>\<^verbatim>\<open>fiber->get_state()\<close> through a pointer held by the scheduler.\<close>

definition get_state :: "Scheduler \<Rightarrow> nat \<Rightarrow> State option" where
  "get_state s a = map_option state (fiber_heap s a)"

definition set_state :: "Scheduler \<Rightarrow> nat \<Rightarrow> State \<Rightarrow> Scheduler" where
  "set_state s a st =
     (case fiber_heap s a of
        None \<Rightarrow> s
      | Some f \<Rightarrow> s\<lparr>fiber_heap := (fiber_heap s)(a \<mapsto> f\<lparr>state := st\<rparr>)\<rparr>)"

text \<open>
  \<^verbatim>\<open>Scheduler::get_next_fiber\<close>: \<^verbatim>\<open>nullptr\<close> on an empty queue; otherwise pops the front
  and, if that fiber is \<^verbatim>\<open>READY\<close>, pushes it on \<^verbatim>\<open>running_fibers\<close>.
\<close>

definition get_next_fiber :: "Scheduler \<Rightarrow> nat option \<times> Scheduler" where
  "get_next_fiber s =
     (case ready_queue s of
        [] \<Rightarrow> (None, s)
      | a # rest \<Rightarrow>
          (let s1 = s\<lparr>ready_queue := rest\<rparr>
           in (Some a,
               if get_state s1 a = Some READY
               then s1\<lparr>running_fibers := running_fibers s1 @ [a]\<rparr>
               else s1)))"

text \<open>
  \<^verbatim>\<open>Fiber::start\<close> on the fiber at address \<open>a\<close>:
  \<^verbatim>\<open>if (state == READY) { state = RUNNING; function(); state = FINISHED; }\<close>
\<close>

definition Fiber_start :: "Scheduler \<Rightarrow> nat \<Rightarrow> Scheduler" where
  "Fiber_start s a =
     (case fiber_heap s a of
        None \<Rightarrow> s
      | Some f \<Rightarrow>
          if state f = READY
          then (let s1 = set_state s a RUNNING;
                    s2 = (case function_work f of Work spawned \<Rightarrow> foldl spawn s1 spawned)
                in set_state s2 a FINISHED)
          else s)"

text \<open>
  One turn of the \<^verbatim>\<open>while (running)\<close> loop of \<^verbatim>\<open>Scheduler::worker_loop\<close>: with no fiber
  the worker waits up to 10 ms and changes nothing.
\<close>

definition worker_loop_body :: "Scheduler \<Rightarrow> Scheduler" where
  "worker_loop_body s =
     (case get_next_fiber s of
        (None, s') \<Rightarrow> s'
      | (Some a, s') \<Rightarrow> if get_state s' a = Some READY then Fiber_start s' a else s')"

text \<open>The test on which \<^verbatim>\<open>Scheduler::wait_all\<close> leaves its polling loop.\<close>

definition wait_all_done :: "Scheduler \<Rightarrow> bool" where
  "wait_all_done s \<longleftrightarrow> ready_queue s = [] \<and> running_fibers s = [] \<and> waiting_fibers s = []"

definition is_running :: "Scheduler \<Rightarrow> bool" where
  "is_running s = running s"

definition active_fibers :: "Scheduler \<Rightarrow> nat" where
  "active_fibers s = length (running_fibers s)"

definition total_fibers :: "Scheduler \<Rightarrow> nat" where
  "total_fibers s = length (ready_queue s) + length (running_fibers s) + length (waiting_fibers s)"

section \<open>Derived notions used in the properties\<close>

text \<open>
  The collector's bookkeeping is consistent when every identity has one entry and the
  running total is the sum of the registered sizes.
\<close>

definition gc_invariant :: "GarbageCollector \<Rightarrow> bool" where
  "gc_invariant gc \<longleftrightarrow>
     distinct (map fst (objects gc)) \<and> total_allocated gc = registered_bytes gc"

text \<open>
  A scheduler with one worker is started, one fiber with an empty body is spawned, and
  the worker makes one turn of its loop.
\<close>

definition one_fiber_run :: Scheduler where
  "one_fiber_run = worker_loop_body (spawn (start (Scheduler_ctor 1)) (Work []))"

section \<open>Properties of the channel\<close>

text \<open>No method writes \<open>max_size\<close>, and no method reopens a closed channel.\<close>

lemma max_size_apply_op: "max_size (apply_op ch op) = max_size ch"
  by (cases op) (simp_all add: send_def receive_def close_def)

lemma max_size_run_ops: "max_size (run_ops ch ops) = max_size ch"
  unfolding run_ops_def
  by (induction ops arbitrary: ch) (simp_all add: max_size_apply_op)

lemma closed_apply_op: "closed ch \<Longrightarrow> closed (apply_op ch op)"
  by (cases op) (simp_all add: send_def receive_def close_def)

lemma closed_run_ops: "closed ch \<Longrightarrow> closed (run_ops ch ops)"
  unfolding run_ops_def
  by (induction ops arbitrary: ch) (simp_all add: closed_apply_op)

text \<open>
  On a bounded channel a sender woken from \<^verbatim>\<open>not_full.wait\<close> does what a fresh call of
  \<^verbatim>\<open>send\<close> does in the state it finds, so a parked sender is a call still to be made.
\<close>

lemma send_resume_eq_send:
  "0 < max_size ch \<Longrightarrow> send_resume ch v = send ch v"
  by (auto simp add: send_resume_def send_def send_wait_pred_def)

text \<open>
  C10: on a channel of capacity 0, \<^verbatim>\<open>is_full()\<close> is false in every state, also with
  values in the buffer; a channel that reports full has a capacity above 0.
\<close>

theorem is_full_capacity_zero:
  "(max_size ch = 0 \<longrightarrow> \<not> is_full ch) \<and> (is_full ch \<longrightarrow> 0 < capacity ch)"
  by (simp add: is_full_def capacity_def)

theorem is_full_capacity_zero_witness:
  "max_size (run_ops (Channel_ctor 0) [Send (VInt 1)]) = 0
   \<and> buffer (run_ops (Channel_ctor 0) [Send (VInt 1)]) = [VInt 1]
   \<and> \<not> is_full (run_ops (Channel_ctor 0) [Send (VInt 1)])
   \<and> is_full (run_ops (Channel_ctor 1) [Send (VInt 1)])
   \<and> 0 < capacity (run_ops (Channel_ctor 1) [Send (VInt 1)])"
  using is_full_capacity_zero [of "run_ops (Channel_ctor 0) [Send (VInt 1)]"]
        is_full_capacity_zero [of "run_ops (Channel_ctor 1) [Send (VInt 1)]"]
  by (simp add: run_ops_def Channel_ctor_def send_def is_full_def capacity_def)

text \<open>
  C1, as stated, fails: on a new channel of capacity 0, with no receiver anywhere,
  \<^verbatim>\<open>send\<close> returns \<^verbatim>\<open>true\<close> at once and the value sits in the buffer.
\<close>

theorem send_capacity_zero_counterexample:
  "send (Channel_ctor 0) (VInt 1) = Returns True \<lparr>buffer = [VInt 1], max_size = 0, closed = False\<rparr>"
  by (simp add: send_def Channel_ctor_def)

text \<open>
  C1, amended: on an open channel of capacity 0, \<^verbatim>\<open>send\<close> never suspends; it appends
  the value to the buffer and returns \<^verbatim>\<open>true\<close>, whatever the buffer holds and with no
  receiver. A \<^verbatim>\<open>receive\<close> on such a channel with an empty buffer suspends, so it
  returns no value before some \<^verbatim>\<open>send\<close> has been made.
\<close>

theorem capacity_zero_unbounded:
  "max_size ch = 0 \<Longrightarrow> \<not> closed ch \<Longrightarrow>
     send ch v = Returns True (ch\<lparr>buffer := buffer ch @ [v]\<rparr>)
     \<and> (buffer ch = [] \<longrightarrow> receive ch = Blocks)"
  by (simp add: send_def receive_def)

theorem capacity_zero_unbounded_witness:
  "max_size (Channel_ctor 0) = 0 \<and> \<not> closed (Channel_ctor 0) \<and> buffer (Channel_ctor 0) = []
   \<and> send (Channel_ctor 0) (VString ''a'')
       = Returns True \<lparr>buffer = [VString ''a''], max_size = 0, closed = False\<rparr>
   \<and> receive (Channel_ctor 0) = Blocks"
  using capacity_zero_unbounded [of "Channel_ctor 0" "VString ''a''"]
  by (simp add: Channel_ctor_def)

text \<open>
  C3: in any state \<open>ch'\<close> a channel reaches after \<^verbatim>\<open>close()\<close>, whatever calls followed
  the close: \<^verbatim>\<open>send\<close> returns \<^verbatim>\<open>false\<close> and leaves the channel as it is (a fresh call,
  and a sender that was parked and is woken); \<^verbatim>\<open>receive\<close> on an empty buffer returns no
  value without suspending; \<^verbatim>\<open>receive\<close> on a non-empty buffer removes and returns the
  oldest buffered value.
\<close>

theorem after_close:
  "ch' = run_ops (close ch) ops \<Longrightarrow>
     send ch' v = Returns False ch'
     \<and> send_resume ch' v = Returns False ch'
     \<and> (buffer ch' = [] \<longrightarrow> receive ch' = Returns None ch')
     \<and> (buffer ch' \<noteq> [] \<longrightarrow>
          receive ch' = Returns (Some (hd (buffer ch'))) (ch'\<lparr>buffer := tl (buffer ch')\<rparr>))"
proof -
  assume "ch' = run_ops (close ch) ops"
  then have "closed ch'"
    by (simp add: closed_run_ops close_def)
  then show ?thesis
    by (simp add: send_def send_resume_def send_wait_pred_def receive_def)
qed

theorem after_close_witness:
  "run_ops (close \<lparr>buffer = [VInt 1, VInt 2], max_size = 2, closed = False\<rparr>) [Send (VInt 3)]
     = \<lparr>buffer = [VInt 1, VInt 2], max_size = 2, closed = True\<rparr>
   \<and> send \<lparr>buffer = [VInt 1, VInt 2], max_size = 2, closed = True\<rparr> (VInt 3)
       = Returns False \<lparr>buffer = [VInt 1, VInt 2], max_size = 2, closed = True\<rparr>
   \<and> receive \<lparr>buffer = [VInt 1, VInt 2], max_size = 2, closed = True\<rparr>
       = Returns (Some (VInt 1)) \<lparr>buffer = [VInt 2], max_size = 2, closed = True\<rparr>
   \<and> run_ops (close \<lparr>buffer = [VInt 1], max_size = 2, closed = False\<rparr>) [Receive]
       = \<lparr>buffer = [], max_size = 2, closed = True\<rparr>
   \<and> receive \<lparr>buffer = [], max_size = 2, closed = True\<rparr>
       = Returns None \<lparr>buffer = [], max_size = 2, closed = True\<rparr>"
  using after_close [of "\<lparr>buffer = [VInt 1, VInt 2], max_size = 2, closed = True\<rparr>"
                        "\<lparr>buffer = [VInt 1, VInt 2], max_size = 2, closed = False\<rparr>"
                        "[Send (VInt 3)]" "VInt 3"]
        after_close [of "\<lparr>buffer = [], max_size = 2, closed = True\<rparr>"
                        "\<lparr>buffer = [VInt 1], max_size = 2, closed = False\<rparr>"
                        "[Receive]" "VInt 3"]
  by (simp add: run_ops_def close_def send_def receive_def)

text \<open>
  Sends that fit under the capacity all succeed and append in order; receives take
  from the front.
\<close>

lemma send_all_appends:
  "\<not> closed ch \<Longrightarrow> length (buffer ch) + length vs \<le> max_size ch \<Longrightarrow>
     send_all ch vs = Some (replicate (length vs) True, ch\<lparr>buffer := buffer ch @ vs\<rparr>)"
proof (induction vs arbitrary: ch)
  case Nil
  then show ?case by simp
next
  case (Cons v vs)
  have step: "send ch v = Returns True (ch\<lparr>buffer := buffer ch @ [v]\<rparr>)"
    using Cons.prems by (simp add: send_def)
  have "send_all (ch\<lparr>buffer := buffer ch @ [v]\<rparr>) vs
          = Some (replicate (length vs) True,
                  ch\<lparr>buffer := buffer ch @ [v]\<rparr>\<lparr>buffer := (buffer ch @ [v]) @ vs\<rparr>)"
    using Cons.IH [of "ch\<lparr>buffer := buffer ch @ [v]\<rparr>"] Cons.prems by simp
  with step show ?case by simp
qed

lemma receive_n_takes:
  "n \<le> length (buffer ch) \<Longrightarrow>
     receive_n ch n = Some (map Some (take n (buffer ch)), ch\<lparr>buffer := drop n (buffer ch)\<rparr>)"
proof (induction n arbitrary: ch)
  case 0
  then show ?case by simp
next
  case (Suc n)
  then obtain x xs where b: "buffer ch = x # xs"
    by (cases "buffer ch") auto
  have step: "receive ch = Returns (Some x) (ch\<lparr>buffer := xs\<rparr>)"
    using b by (simp add: receive_def)
  have "receive_n (ch\<lparr>buffer := xs\<rparr>) n
          = Some (map Some (take n xs), ch\<lparr>buffer := xs\<rparr>\<lparr>buffer := drop n xs\<rparr>)"
    using Suc.IH [of "ch\<lparr>buffer := xs\<rparr>"] Suc.prems b by simp
  with step b show ?case by simp
qed

text \<open>
  C2: on an open channel with an empty buffer and capacity at least \<open>n\<close>, the \<open>n\<close>
  sends of \<open>v1..vn\<close> made with no receive in between all return \<^verbatim>\<open>true\<close>, and the next
  \<open>n\<close> receives return \<open>v1..vn\<close> in that order, leaving the channel empty again.
\<close>

theorem fifo_order:
  "\<not> closed ch \<Longrightarrow> buffer ch = [] \<Longrightarrow> length vs \<le> max_size ch \<Longrightarrow>
     send_all ch vs = Some (replicate (length vs) True, ch\<lparr>buffer := vs\<rparr>)
     \<and> receive_n (ch\<lparr>buffer := vs\<rparr>) (length vs) = Some (map Some vs, ch)"
proof -
  assume a: "\<not> closed ch" "buffer ch = []" "length vs \<le> max_size ch"
  have s: "send_all ch vs = Some (replicate (length vs) True, ch\<lparr>buffer := vs\<rparr>)"
    using send_all_appends [of ch vs] a by simp
  have "receive_n (ch\<lparr>buffer := vs\<rparr>) (length vs)
          = Some (map Some vs, ch\<lparr>buffer := vs\<rparr>\<lparr>buffer := []\<rparr>)"
    using receive_n_takes [of "length vs" "ch\<lparr>buffer := vs\<rparr>"] by simp
  moreover have "ch\<lparr>buffer := vs\<rparr>\<lparr>buffer := []\<rparr> = ch"
    using a(2) by simp
  ultimately show ?thesis using s by simp
qed

theorem fifo_order_witness:
  "\<not> closed (Channel_ctor 2) \<and> buffer (Channel_ctor 2) = []
   \<and> length [VString ''mensagem 1'', VString ''mensagem 2''] \<le> max_size (Channel_ctor 2)
   \<and> send_all (Channel_ctor 2) [VString ''mensagem 1'', VString ''mensagem 2'']
       = Some ([True, True],
               \<lparr>buffer = [VString ''mensagem 1'', VString ''mensagem 2''], max_size = 2, closed = False\<rparr>)
   \<and> receive_n \<lparr>buffer = [VString ''mensagem 1'', VString ''mensagem 2''], max_size = 2, closed = False\<rparr> 2
       = Some ([Some (VString ''mensagem 1''), Some (VString ''mensagem 2'')], Channel_ctor 2)"
  using fifo_order [of "Channel_ctor 2" "[VString ''mensagem 1'', VString ''mensagem 2'']"]
  by (simp add: Channel_ctor_def numeral_2_eq_2)

section \<open>Properties of the garbage collector\<close>

text \<open>
  The mark phase marks every entry, so the sweep finds nothing to erase: a collection
  only sets the mark bits.
\<close>

lemma sweep_loop_all_marked:
  "\<forall>(p, info) \<in> set objs. marked info \<Longrightarrow> sweep_loop objs tot = (objs, tot)"
  by (induction objs) auto

lemma mark_and_sweep_keeps_all:
  "mark_and_sweep gc = gc\<lparr>objects := map (\<lambda>(p, info). (p, info\<lparr>marked := True\<rparr>)) (objects gc)\<rparr>"
proof -
  let ?m = "map (\<lambda>(p, info). (p, info\<lparr>marked := True\<rparr>)) (objects gc)"
  have "sweep_loop ?m (total_allocated gc) = (?m, total_allocated gc)"
    by (rule sweep_loop_all_marked) auto
  then show ?thesis
    by (simp add: mark_and_sweep_def mark_reachable_objects_def sweep_unreachable_objects_def
        case_prod_unfold comp_def)
qed

text \<open>
  C4, as stated, fails: an object is registered in a new collector and \<^verbatim>\<open>collect()\<close> is
  called. No global, fiber local or channel buffer exists, so the object is reachable
  from no root; it is still registered after the collection and \<^verbatim>\<open>total_memory()\<close> is
  still 100.
\<close>

theorem collect_unreachable_counterexample:
  "and_then (register_object GarbageCollector_ctor 1 100) collect
     = Returned \<lparr>objects = [(1, \<lparr>ptr = 1, size_bytes = 100, marked = True\<rparr>)],
                 memory_threshold = 1024 * 1024, total_allocated = 100, gc_mutex = False\<rparr>"
  by (simp add: and_then_def register_object_def collect_def lock_guard_def
      GarbageCollector_ctor_def mark_and_sweep_keeps_all)

text \<open>
  C4, amended: \<^verbatim>\<open>collect()\<close> removes no registered object, reachable or not. It returns
  with every object still registered under its size, every mark bit set, and
  \<^verbatim>\<open>allocated_objects()\<close> and \<^verbatim>\<open>total_memory()\<close> unchanged.
\<close>

theorem collect_removes_nothing:
  "\<not> gc_mutex gc \<Longrightarrow>
     collect gc = Returned (gc\<lparr>objects := map (\<lambda>(p, info). (p, info\<lparr>marked := True\<rparr>)) (objects gc)\<rparr>)
     \<and> allocated_objects (gc\<lparr>objects := map (\<lambda>(p, info). (p, info\<lparr>marked := True\<rparr>)) (objects gc)\<rparr>)
         = allocated_objects gc
     \<and> total_memory (gc\<lparr>objects := map (\<lambda>(p, info). (p, info\<lparr>marked := True\<rparr>)) (objects gc)\<rparr>)
         = total_memory gc"
  by (simp add: collect_def lock_guard_def mark_and_sweep_keeps_all allocated_objects_def
      total_memory_def)

theorem collect_removes_nothing_witness:
  "\<not> gc_mutex \<lparr>objects = [(1, \<lparr>ptr = 1, size_bytes = 100, marked = False\<rparr>),
                          (2, \<lparr>ptr = 2, size_bytes = 200, marked = False\<rparr>)],
                memory_threshold = 1024 * 1024, total_allocated = 300, gc_mutex = False\<rparr>
   \<and> collect \<lparr>objects = [(1, \<lparr>ptr = 1, size_bytes = 100, marked = False\<rparr>),
                          (2, \<lparr>ptr = 2, size_bytes = 200, marked = False\<rparr>)],
                memory_threshold = 1024 * 1024, total_allocated = 300, gc_mutex = False\<rparr>
       = Returned \<lparr>objects = [(1, \<lparr>ptr = 1, size_bytes = 100, marked = True\<rparr>),
                              (2, \<lparr>ptr = 2, size_bytes = 200, marked = True\<rparr>)],
                    memory_threshold = 1024 * 1024, total_allocated = 300, gc_mutex = False\<rparr>"
  using collect_removes_nothing
    [of "\<lparr>objects = [(1, \<lparr>ptr = 1, size_bytes = 100, marked = False\<rparr>),
                     (2, \<lparr>ptr = 2, size_bytes = 200, marked = False\<rparr>)],
           memory_threshold = 1024 * 1024, total_allocated = 300, gc_mutex = False\<rparr>"]
  by simp

text \<open>
  \<^verbatim>\<open>register_object\<close> from outside any collector method: above the threshold it calls
  \<^verbatim>\<open>collect()\<close> while it holds \<^verbatim>\<open>gc_mutex\<close>, and \<^verbatim>\<open>collect()\<close> locks \<^verbatim>\<open>gc_mutex\<close> again.
\<close>

lemma register_object_over_threshold:
  "\<not> gc_mutex gc \<Longrightarrow> memory_threshold gc < total_allocated gc + sz \<Longrightarrow>
     register_object gc p sz = Deadlock"
  by (simp add: register_object_def lock_guard_def collect_def Let_def)

lemma register_object_under_threshold:
  "\<not> gc_mutex gc \<Longrightarrow> \<not> memory_threshold gc < total_allocated gc + sz \<Longrightarrow>
     register_object gc p sz =
       Returned (gc\<lparr>objects := AList.update p \<lparr>ptr = p, size_bytes = sz, marked = False\<rparr> (objects gc),
                    total_allocated := total_allocated gc + sz\<rparr>)"
  by (simp add: register_object_def lock_guard_def Let_def)

text \<open>
  C5: with the threshold set to 1024 bytes, registering an object of 2048 bytes in a new
  collector takes the total above the threshold. The call does not run a collection
  pass and return: it never returns, stopped at the second lock of \<^verbatim>\<open>gc_mutex\<close>.
\<close>

theorem register_object_threshold_deadlock:
  "register_object (set_threshold GarbageCollector_ctor 1024) 1 2048 = Deadlock"
  by (simp add: register_object_def lock_guard_def collect_def Let_def set_threshold_def
      GarbageCollector_ctor_def)

text \<open>
  C6, as stated, fails: \<^verbatim>\<open>unregister_object\<close> on an identity that is not registered (here
  in a new collector, which is also the state after a register and an unregister of one
  object) returns normally, with nothing thrown and the collector as it was.
\<close>

theorem unregister_unknown_counterexample:
  "unregister_object GarbageCollector_ctor 7 = Returned GarbageCollector_ctor
   \<and> unregister_object GarbageCollector_ctor 7 \<noteq> Raised"
  by (simp add: unregister_object_def lock_guard_def GarbageCollector_ctor_def)

text \<open>
  C6, amended: \<^verbatim>\<open>unregister_object\<close> on an identity that is not registered is ignored: the
  call returns normally, reports nothing, and leaves the registry and the total of
  tracked bytes unchanged.
\<close>

theorem unregister_unknown_ignored:
  "\<not> gc_mutex gc \<Longrightarrow> map_of (objects gc) p = None \<Longrightarrow> unregister_object gc p = Returned gc"
  by (simp add: unregister_object_def lock_guard_def)

theorem unregister_unknown_ignored_witness:
  "\<not> gc_mutex \<lparr>objects = [(2, \<lparr>ptr = 2, size_bytes = 200, marked = False\<rparr>)],
                memory_threshold = 1024 * 1024, total_allocated = 200, gc_mutex = False\<rparr>
   \<and> map_of (objects \<lparr>objects = [(2, \<lparr>ptr = 2, size_bytes = 200, marked = False\<rparr>)],
                memory_threshold = 1024 * 1024, total_allocated = 200, gc_mutex = False\<rparr>) 1 = None
   \<and> unregister_object \<lparr>objects = [(2, \<lparr>ptr = 2, size_bytes = 200, marked = False\<rparr>)],
                memory_threshold = 1024 * 1024, total_allocated = 200, gc_mutex = False\<rparr> 1
       = Returned \<lparr>objects = [(2, \<lparr>ptr = 2, size_bytes = 200, marked = False\<rparr>)],
                memory_threshold = 1024 * 1024, total_allocated = 200, gc_mutex = False\<rparr>"
  using unregister_unknown_ignored
    [of "\<lparr>objects = [(2, \<lparr>ptr = 2, size_bytes = 200, marked = False\<rparr>)],
                memory_threshold = 1024 * 1024, total_allocated = 200, gc_mutex = False\<rparr>" 1]
  by simp

text \<open>
  C8: registering the identity 1 with 100 bytes twice in a new collector. The second call
  replaces the entry and adds 100 again: one object of 100 bytes is registered and
  \<^verbatim>\<open>total_memory()\<close> is 200.
\<close>

theorem register_twice_total_differs:
  "register_object GarbageCollector_ctor 1 100
     = Returned \<lparr>objects = [(1, \<lparr>ptr = 1, size_bytes = 100, marked = False\<rparr>)],
                 memory_threshold = 1024 * 1024, total_allocated = 100, gc_mutex = False\<rparr>
   \<and> register_object \<lparr>objects = [(1, \<lparr>ptr = 1, size_bytes = 100, marked = False\<rparr>)],
                 memory_threshold = 1024 * 1024, total_allocated = 100, gc_mutex = False\<rparr> 1 100
     = Returned \<lparr>objects = [(1, \<lparr>ptr = 1, size_bytes = 100, marked = False\<rparr>)],
                 memory_threshold = 1024 * 1024, total_allocated = 200, gc_mutex = False\<rparr>
   \<and> total_memory \<lparr>objects = [(1, \<lparr>ptr = 1, size_bytes = 100, marked = False\<rparr>)],
                 memory_threshold = 1024 * 1024, total_allocated = 200, gc_mutex = False\<rparr> = 200
   \<and> registered_bytes \<lparr>objects = [(1, \<lparr>ptr = 1, size_bytes = 100, marked = False\<rparr>)],
                 memory_threshold = 1024 * 1024, total_allocated = 200, gc_mutex = False\<rparr> = 100
   \<and> gc_invariant \<lparr>objects = [(1, \<lparr>ptr = 1, size_bytes = 100, marked = False\<rparr>)],
                 memory_threshold = 1024 * 1024, total_allocated = 100, gc_mutex = False\<rparr>
   \<and> \<not> gc_invariant \<lparr>objects = [(1, \<lparr>ptr = 1, size_bytes = 100, marked = False\<rparr>)],
                 memory_threshold = 1024 * 1024, total_allocated = 200, gc_mutex = False\<rparr>"
  by (simp add: register_object_def lock_guard_def Let_def GarbageCollector_ctor_def
      total_memory_def registered_bytes_def gc_invariant_def)

text \<open>
  Where the running total is kept equal to the registered bytes: the sweep, an
  \<^verbatim>\<open>unregister_object\<close>, and a \<^verbatim>\<open>register_object\<close> of an identity not yet registered.
\<close>

lemma sweep_loop_total:
  "sweep_loop objs tot = (kept, tot') \<Longrightarrow>
     kept = filter (\<lambda>(p, info). marked info) objs
     \<and> tot' - sum_list (map (\<lambda>(p, info). size_bytes info) kept)
         = tot - sum_list (map (\<lambda>(p, info). size_bytes info) objs)"
proof (induction objs arbitrary: tot kept tot')
  case Nil
  then show ?case by simp
next
  case (Cons x xs)
  obtain p info where x: "x = (p, info)" by (cases x)
  show ?case
  proof (cases "marked info")
    case True
    obtain k t where r: "sweep_loop xs tot = (k, t)" by (cases "sweep_loop xs tot")
    from Cons.IH [OF r] Cons.prems x True r show ?thesis by auto
  next
    case False
    then have "sweep_loop xs (tot - size_bytes info) = (kept, tot')"
      using Cons.prems x by simp
    from Cons.IH [OF this] x False show ?thesis by (auto simp add: diff_diff_eq)
  qed
qed

lemma sweep_preserves_invariant:
  "gc_invariant gc \<Longrightarrow> gc_invariant (sweep_unreachable_objects gc)"
proof -
  assume inv: "gc_invariant gc"
  obtain kept tot' where r: "sweep_loop (objects gc) (total_allocated gc) = (kept, tot')"
    by (cases "sweep_loop (objects gc) (total_allocated gc)")
  from sweep_loop_total [OF r] inv
  have k: "kept = filter (\<lambda>(p, info). marked info) (objects gc)"
    and t: "tot' = sum_list (map (\<lambda>(p, info). size_bytes info) kept)"
    by (simp_all add: gc_invariant_def registered_bytes_def)
  have "distinct (map fst kept)"
    using inv k by (simp add: gc_invariant_def distinct_map_filter)
  then show ?thesis
    using r t by (simp add: sweep_unreachable_objects_def gc_invariant_def registered_bytes_def)
qed

lemma sizes_delete:
  "distinct (map fst objs) \<Longrightarrow> map_of objs p = Some info \<Longrightarrow>
     sum_list (map (\<lambda>(p, info). size_bytes info) (AList.delete p objs))
       = sum_list (map (\<lambda>(p, info). size_bytes info) objs) - size_bytes info"
proof (induction objs)
  case Nil
  then show ?case by simp
next
  case (Cons x xs)
  obtain k v where x: "x = (k, v)" by (cases x)
  show ?case
  proof (cases "k = p")
    case True
    then have "p \<notin> fst ` set xs" using Cons.prems(1) x by auto
    then have "AList.delete p xs = xs" by simp
    then show ?thesis using True x Cons.prems(2) by simp
  next
    case False
    then show ?thesis using Cons x by simp
  qed
qed

lemma unregister_preserves_invariant:
  "gc_invariant gc \<Longrightarrow> unregister_object gc p = Returned gc' \<Longrightarrow> gc_invariant gc'"
  by (auto simp add: unregister_object_def lock_guard_def gc_invariant_def registered_bytes_def
      sizes_delete distinct_delete split: if_splits option.splits)

lemma update_fresh:
  "p \<notin> fst ` set objs \<Longrightarrow> AList.update p v objs = objs @ [(p, v)]"
  by (induction objs) auto

lemma register_fresh_preserves_invariant:
  "gc_invariant gc \<Longrightarrow> map_of (objects gc) p = None \<Longrightarrow>
     register_object gc p sz = Returned gc' \<Longrightarrow> gc_invariant gc'"
proof -
  assume inv: "gc_invariant gc" and fresh: "map_of (objects gc) p = None"
    and r: "register_object gc p sz = Returned gc'"
  have nin: "p \<notin> fst ` set (objects gc)"
    using fresh by (simp add: map_of_eq_None_iff)
  have m: "\<not> gc_mutex gc"
    using r by (auto simp add: register_object_def lock_guard_def split: if_splits)
  have "\<not> memory_threshold gc < total_allocated gc + sz"
    using r m by (auto simp add: register_object_def lock_guard_def collect_def Let_def split: if_splits)
  with r m have "gc' = gc\<lparr>objects := AList.update p \<lparr>ptr = p, size_bytes = sz, marked = False\<rparr> (objects gc),
                    total_allocated := total_allocated gc + sz, gc_mutex := False\<rparr>"
    by (auto simp add: register_object_def lock_guard_def Let_def)
  then show ?thesis
    using inv nin by (simp add: gc_invariant_def registered_bytes_def update_fresh)
qed

section \<open>Properties of the scheduler\<close>


text \<open>
  C7: after the worker has run the only fiber to the end, the fiber is \<^verbatim>\<open>FINISHED\<close> and
  is still in \<^verbatim>\<open>running_fibers\<close>; further turns of the worker loop change nothing, so
  \<^verbatim>\<open>active_fibers()\<close> stays 1 and the test of \<^verbatim>\<open>wait_all()\<close> stays false.
\<close>

theorem finished_fiber_stays_running:
  "get_state one_fiber_run 1 = Some FINISHED
   \<and> ready_queue one_fiber_run = []
   \<and> running_fibers one_fiber_run = [1]
   \<and> waiting_fibers one_fiber_run = []
   \<and> active_fibers one_fiber_run = 1
   \<and> \<not> wait_all_done one_fiber_run
   \<and> worker_loop_body one_fiber_run = one_fiber_run"
  by (simp add: one_fiber_run_def worker_loop_body_def get_next_fiber_def Fiber_start_def
      spawn_def start_def Scheduler_ctor_def get_state_def set_state_def Let_def
      active_fibers_def wait_all_done_def)

text \<open>The join loop only removes threads, and removes every joinable worker.\<close>

lemma snd_join_workers_Cons:
  "snd (join_workers (w # ws) live) =
     (if joinable w then snd (join_workers ws (removeAll (tid w) live))
      else snd (join_workers ws live))"
  by (simp split: prod.splits)

lemma join_workers_live_subset:
  "set (snd (join_workers ws live)) \<subseteq> set live"
proof (induction ws arbitrary: live)
  case Nil
  then show ?case by simp
next
  case (Cons x xs)
  show ?case
  proof (cases "joinable x")
    case True
    have "set (snd (join_workers xs (removeAll (tid x) live))) \<subseteq> set (removeAll (tid x) live)"
      by (rule Cons.IH)
    then show ?thesis using True by (auto simp only: snd_join_workers_Cons if_True set_removeAll)
  next
    case False
    then show ?thesis using Cons.IH [of live] by (simp only: snd_join_workers_Cons if_False)
  qed
qed

lemma join_workers_joined:
  "w \<in> set ws \<Longrightarrow> joinable w \<Longrightarrow> tid w \<notin> set (snd (join_workers ws live))"
proof (induction ws arbitrary: live)
  case Nil
  then show ?case by simp
next
  case (Cons x xs)
  show ?case
  proof (cases "w = x")
    case True
    have "set (snd (join_workers xs (removeAll (tid x) live))) \<subseteq> set (removeAll (tid x) live)"
      by (rule join_workers_live_subset)
    then have "tid x \<notin> set (snd (join_workers xs (removeAll (tid x) live)))"
      by auto
    then show ?thesis using True Cons.prems(2) by (simp add: snd_join_workers_Cons del: join_workers.simps)
  next
    case False
    then have "w \<in> set xs" using Cons.prems by simp
    then have "tid w \<notin> set (snd (join_workers xs l))" for l
      using Cons.IH Cons.prems(2) by blast
    then show ?thesis by (simp add: snd_join_workers_Cons del: join_workers.simps)
  qed
qed

lemma stop_not_running: "\<not> running s \<Longrightarrow> stop s = s"
  by (simp add: stop_def)

lemma running_stop: "\<not> running (stop s)"
  by (simp add: stop_def Let_def split: prod.splits)

text \<open>
  C9: \<^verbatim>\<open>stop()\<close> on a stopped scheduler changes nothing, so a second and any later call
  is a no-op; a call on a running scheduler clears \<^verbatim>\<open>running\<close>, joins every joinable
  worker (none of them is a live thread afterwards) and leaves the worker list empty.
\<close>

theorem stop_idempotent:
  "stop (stop s) = stop s
   \<and> (\<not> running s \<longrightarrow> stop s = s)
   \<and> (running s \<longrightarrow>
        \<not> running (stop s) \<and> workers (stop s) = []
        \<and> (\<forall>w \<in> set (workers s). joinable w \<longrightarrow> tid w \<notin> set (live_threads (stop s))))"
proof -
  have "stop (stop s) = stop s"
    using stop_not_running [OF running_stop] .
  moreover have "\<not> running s \<longrightarrow> stop s = s"
    by (simp add: stop_not_running)
  moreover have "running s \<longrightarrow> workers (stop s) = []"
    by (simp add: stop_def Let_def split: prod.splits)
  moreover have "running s \<longrightarrow>
      (\<forall>w \<in> set (workers s). joinable w \<longrightarrow> tid w \<notin> set (live_threads (stop s)))"
  proof (intro impI ballI)
    fix w
    assume r: "running s" and w: "w \<in> set (workers s)" and j: "joinable w"
    have "live_threads (stop s) = snd (join_workers (workers s) (live_threads s))"
      using r by (simp add: stop_def Let_def split: prod.splits)
    then show "tid w \<notin> set (live_threads (stop s))"
      using join_workers_joined [OF w j] by simp
  qed
  ultimately show ?thesis using running_stop by blast
qed


theorem stop_idempotent_witness:
  "running (start (Scheduler_ctor 2))
   \<and> workers (start (Scheduler_ctor 2))
       = [\<lparr>tid = 0, joinable = True\<rparr>, \<lparr>tid = 1, joinable = True\<rparr>]
   \<and> live_threads (start (Scheduler_ctor 2)) = [0, 1]
   \<and> \<not> running (stop (start (Scheduler_ctor 2)))
   \<and> workers (stop (start (Scheduler_ctor 2))) = []
   \<and> 0 \<notin> set (live_threads (stop (start (Scheduler_ctor 2))))
   \<and> 1 \<notin> set (live_threads (stop (start (Scheduler_ctor 2))))
   \<and> stop (stop (start (Scheduler_ctor 2))) = stop (start (Scheduler_ctor 2))
   \<and> \<not> running (Scheduler_ctor 2)
   \<and> stop (Scheduler_ctor 2) = Scheduler_ctor 2"
proof -
  have w: "workers (start (Scheduler_ctor 2))
       = [\<lparr>tid = 0, joinable = True\<rparr>, \<lparr>tid = 1, joinable = True\<rparr>]"
    by (simp add: start_def Scheduler_ctor_def Let_def upt_rec)
  have r: "running (start (Scheduler_ctor 2))"
    by (simp add: start_def Scheduler_ctor_def Let_def)
  have l: "live_threads (start (Scheduler_ctor 2)) = [0, 1]"
    by (simp add: start_def Scheduler_ctor_def Let_def upt_rec)
  have n: "\<not> running (Scheduler_ctor 2)"
    by (simp add: Scheduler_ctor_def)
  show ?thesis
    using stop_idempotent [of "start (Scheduler_ctor 2)"] stop_idempotent [of "Scheduler_ctor 2"]
      w r l n
    by simp
qed

end
